theory Spec2Isabelle
  imports Main "HOL-Library.Word"
begin

unbundle bit_operations_syntax

section \<open>Data model of \<^verbatim>\<open>printer_emulator.py\<close>\<close>

text \<open>
  The input of the decoder is a Python \<^verbatim>\<open>bytearray\<close>: a finite sequence of integers in
  0..255. A byte is an 8-bit word; where the source uses a byte as a Python integer
  (arithmetic without wrap-around) the model reads it with \<open>uint\<close> or \<open>unat\<close>.
\<close>

type_synonym byte = "8 word"

text \<open>The members of the enumeration \<^verbatim>\<open>PrinterCommand\<close> that the decoder dispatches on.\<close>

abbreviation ESC :: byte where "ESC \<equiv> 0x1B"
abbreviation GS :: byte where "GS \<equiv> 0x1D"
abbreviation FS :: byte where "FS \<equiv> 0x1C"
abbreviation LF :: byte where "LF \<equiv> 0x0A"
abbreviation CR :: byte where "CR \<equiv> 0x0D"

text \<open>The exceptions that the operations used by the decoder can raise.\<close>

datatype error = IndexError | ZeroDivisionError

definition err_bind :: "error + 'a \<Rightarrow> ('a \<Rightarrow> error + 'b) \<Rightarrow> error + 'b" where
  "err_bind m f = (case m of Inl e \<Rightarrow> Inl e | Inr x \<Rightarrow> f x)"

text \<open>The dataclass \<^verbatim>\<open>PrinterState\<close>; Python integers are unbounded, hence \<open>int\<close>.\<close>

record PrinterState =
  chars_per_line :: int
  alignment :: int
  bold :: bool
  underline :: bool
  double_width :: bool
  double_height :: bool
  font_size :: int
  char_spacing :: int
  line_spacing :: int
  code_page :: int
  white_on_black :: bool
  upside_down :: bool
  emphasized :: bool
  double_strike :: bool
  font_b :: bool
  italic :: bool

text \<open>\<^verbatim>\<open>PrinterState()\<close>: the dataclass constructor with every field at its default.\<close>

definition new_PrinterState :: PrinterState where
  "new_PrinterState =
     \<lparr> chars_per_line = 48, alignment = 0, bold = False, underline = False,
       double_width = False, double_height = False, font_size = 1, char_spacing = 0,
       line_spacing = 30, code_page = 0, white_on_black = False, upside_down = False,
       emphasized = False, double_strike = False, font_b = False, italic = False \<rparr>"

text \<open>
  What the simulator writes to standard output, one value per \<^verbatim>\<open>print\<close> of the receipt
  box. The box-drawing glyphs are constructors; the widths are the integer operands of
  the string repetitions, a rendered line is carried as it is.
\<close>

datatype console_event =
    Received_hex "byte list"
  | Receipt_header
  | Box_top int
  | Box_row string
  | Box_blank int
  | Box_bottom int

text \<open>
  The object \<^verbatim>\<open>ESCPOSSimulator\<close>: the fields set by \<^verbatim>\<open>__init__\<close>, and the console as
  the trace of what has been printed so far.
\<close>

record ESCPOSSimulator =
  port :: int
  state :: PrinterState
  buffer :: "string list"
  current_line :: string
  console :: "console_event list"

definition new_ESCPOSSimulator :: "int \<Rightarrow> ESCPOSSimulator" where
  "new_ESCPOSSimulator p =
     \<lparr> port = p, state = new_PrinterState, buffer = [], current_line = [], console = [] \<rparr>"

section \<open>Python primitives used by the source\<close>

text \<open>\<^verbatim>\<open>data[i]\<close> on a bytearray with a non-negative index: IndexError out of range.\<close>

definition getb :: "byte list \<Rightarrow> nat \<Rightarrow> error + byte" where
  "getb data i = (if i < length data then Inr (data ! i) else Inl IndexError)"

text \<open>\<^verbatim>\<open>a // b\<close> on integers: floor division, ZeroDivisionError for a zero divisor.\<close>

definition floordiv :: "int \<Rightarrow> int \<Rightarrow> error + int" where
  "floordiv a b = (if b = 0 then Inl ZeroDivisionError else Inr (a div b))"

text \<open>
  \<^verbatim>\<open>str.ljust\<close>, \<^verbatim>\<open>str.rjust\<close> and \<^verbatim>\<open>str.center\<close> with the default fill character. A
  text at least as long as the width is returned as it is. CPython computes the left
  padding of \<^verbatim>\<open>center\<close> as \<^verbatim>\<open>marg / 2 + (marg & width & 1)\<close> with
  \<^verbatim>\<open>marg = width - len\<close>: an odd remainder goes to the left when the width is odd.
\<close>

definition ljust :: "string \<Rightarrow> int \<Rightarrow> string" where
  "ljust text width = text @ replicate (nat (width - int (length text))) CHR '' ''"

definition rjust :: "string \<Rightarrow> int \<Rightarrow> string" where
  "rjust text width = replicate (nat (width - int (length text))) CHR '' '' @ text"

definition center :: "string \<Rightarrow> int \<Rightarrow> string" where
  "center text width =
     (if int (length text) \<ge> width then text
      else let marg = width - int (length text);
               left = marg div 2 + (if odd marg \<and> odd width then 1 else 0)
           in replicate (nat left) CHR '' '' @ text @ replicate (nat (marg - left)) CHR '' '')"

text \<open>\<^verbatim>\<open>' '.join(list(text))\<close>: one space between every two neighbouring characters.\<close>

fun join_space :: "string \<Rightarrow> string" where
  "join_space [] = []"
| "join_space [c] = [c]"
| "join_space (c # d # cs) = c # CHR '' '' # join_space (d # cs)"

text \<open>
  \<^verbatim>\<open>str.strip()\<close>: leading and trailing whitespace removed. \<^verbatim>\<open>str.isspace\<close> on the
  characters below 256.
\<close>

definition isspace :: "char \<Rightarrow> bool" where
  "isspace c = ((of_char c :: nat) \<in> set [9, 10, 11, 12, 13, 28, 29, 30, 31, 32, 133, 160])"

definition strip :: "string \<Rightarrow> string" where
  "strip s = rev (dropWhile isspace (rev (dropWhile isspace s)))"

section \<open>The line composer\<close>

definition format_line :: "PrinterState \<Rightarrow> string \<Rightarrow> error + string" where
  "format_line st text =
     (let effective_width = chars_per_line st in
      err_bind (if double_width st then floordiv effective_width 2 else Inr effective_width)
        (\<lambda>effective_width.
      err_bind (if font_size st > 1 then floordiv effective_width (font_size st)
                else Inr effective_width)
        (\<lambda>effective_width.
      let text = (if alignment st = 1 then center text effective_width
                  else if alignment st = 2 then rjust text effective_width
                  else ljust text effective_width);
          text = (if emphasized st then (CHR 0x1B # ''[1m'') @ text @ (CHR 0x1B # ''[0m'')
                  else text);
          text = (if double_width st \<or> font_size st > 1 then join_space text else text)
      in Inr text)))"

definition flush_line :: "ESCPOSSimulator \<Rightarrow> error + ESCPOSSimulator" where
  "flush_line sim =
     (if current_line sim \<noteq> [] then
        err_bind (format_line (state sim) (current_line sim))
          (\<lambda>line. Inr (sim\<lparr>buffer := buffer sim @ [line], current_line := []\<rparr>))
      else Inr sim)"

section \<open>The command decoder\<close>

text \<open>
  Each sub-decoder takes the data and the cursor and returns the simulator after the
  command together with the next cursor, or the exception it raised. The cursor starts
  at 0 and only grows, hence \<open>nat\<close>.
\<close>

definition handle_esc_sequence ::
  "byte list \<Rightarrow> nat \<Rightarrow> ESCPOSSimulator \<Rightarrow> error + (ESCPOSSimulator \<times> nat)" where
  "handle_esc_sequence data i sim =
     (if i + 1 \<ge> length data then Inr (sim, i + 1)
      else err_bind (getb data (i + 1)) (\<lambda>cmd.
        if cmd = 0x40 then Inr (sim\<lparr>state := new_PrinterState\<rparr>, i + 2)
        else if cmd = 0x61 then
          (if i + 2 < length data then
             err_bind (flush_line sim) (\<lambda>sim.
             err_bind (getb data (i + 2)) (\<lambda>n.
               Inr (sim\<lparr>state := (state sim)\<lparr>alignment := uint n mod 3\<rparr>\<rparr>, i + 3)))
           else Inr (sim, i + 3))
        else if cmd = 0x45 then
          (if i + 2 < length data then
             err_bind (getb data (i + 2)) (\<lambda>n.
               Inr (sim\<lparr>state := (state sim)\<lparr>emphasized := (n \<noteq> 0)\<rparr>\<rparr>, i + 3))
           else Inr (sim, i + 3))
        else if cmd = 0x64 then
          (if i + 2 < length data then
             err_bind (flush_line sim) (\<lambda>sim.
             err_bind (getb data (i + 2)) (\<lambda>n.
               Inr (sim\<lparr>buffer := buffer sim @ replicate (unat n) []\<rparr>, i + 3)))
           else Inr (sim, i + 3))
        else if cmd = 0x24 then Inr (sim, i + 4)
        else if cmd = 0x74 then
          (if i + 2 < length data then
             err_bind (getb data (i + 2)) (\<lambda>n.
               Inr (sim\<lparr>state := (state sim)\<lparr>code_page := uint n\<rparr>\<rparr>, i + 3))
           else Inr (sim, i + 3))
        else if cmd = 0x21 then
          (if i + 2 < length data then
             err_bind (getb data (i + 2)) (\<lambda>n.
               Inr (sim\<lparr>state := (state sim)
                      \<lparr>font_b := (n AND 1 \<noteq> 0),
                       emphasized := (n AND 8 \<noteq> 0),
                       double_height := (n AND 16 \<noteq> 0),
                       double_width := (n AND 32 \<noteq> 0)\<rparr>\<rparr>, i + 3))
           else Inr (sim, i + 3))
        else Inr (sim, i + 2)))"

definition handle_gs_sequence ::
  "byte list \<Rightarrow> nat \<Rightarrow> ESCPOSSimulator \<Rightarrow> error + (ESCPOSSimulator \<times> nat)" where
  "handle_gs_sequence data i sim =
     (if i + 1 \<ge> length data then Inr (sim, i + 1)
      else err_bind (getb data (i + 1)) (\<lambda>cmd.
        if cmd = 0x56 then
          err_bind (flush_line sim) (\<lambda>sim.
            Inr (sim\<lparr>buffer := buffer sim
                     @ [replicate (nat (chars_per_line (state sim))) CHR ''-'']\<rparr>, i + 3))
        else if cmd = 0x21 then
          (if i + 2 < length data then
             err_bind (getb data (i + 2)) (\<lambda>n.
               let width_mag = uint (drop_bit 4 (n AND 0x70)) + 1;
                   height_mag = uint (n AND 0x07) + 1
               in Inr (sim\<lparr>state := (state sim)\<lparr>font_size := max width_mag height_mag\<rparr>\<rparr>,
                       i + 3))
           else Inr (sim, i + 3))
        else Inr (sim, i + 2)))"

definition handle_fs_sequence ::
  "byte list \<Rightarrow> nat \<Rightarrow> ESCPOSSimulator \<Rightarrow> error + (ESCPOSSimulator \<times> nat)" where
  "handle_fs_sequence data i sim =
     (if i + 1 \<ge> length data then Inr (sim, i + 1)
      else err_bind (getb data (i + 1)) (\<lambda>cmd.
        if cmd = 0x2E then Inr (sim, i + 2)
        else Inr (sim, i + 2)))"

text \<open>The body of the \<^verbatim>\<open>while\<close> loop of \<^verbatim>\<open>process_data\<close>: one dispatch at the cursor.\<close>

definition process_byte ::
  "byte list \<Rightarrow> nat \<Rightarrow> ESCPOSSimulator \<Rightarrow> error + (ESCPOSSimulator \<times> nat)" where
  "process_byte data i sim =
     err_bind (getb data i) (\<lambda>byte.
       if byte = ESC then handle_esc_sequence data i sim
       else if byte = GS then handle_gs_sequence data i sim
       else if byte = FS then handle_fs_sequence data i sim
       else if byte = LF then err_bind (flush_line sim) (\<lambda>sim. Inr (sim, i + 1))
       else if byte = CR then Inr (sim, i + 1)
       else if 32 \<le> byte \<and> byte \<le> 126 then
         Inr (sim\<lparr>current_line := current_line sim @ [char_of (unat byte)]\<rparr>, i + 1)
       else Inr (sim, i + 1))"

text \<open>
  The \<^verbatim>\<open>while i < len(data)\<close> loop. Nothing in its shape bounds the number of
  iterations, so it is a partial function: \<open>None\<close> is a loop that never ends,
  \<open>Some (Inl e)\<close> an exception, \<open>Some (Inr sim)\<close> the simulator at the loop's exit.
\<close>

partial_function (option) scan_loop ::
  "byte list \<Rightarrow> nat \<Rightarrow> ESCPOSSimulator \<Rightarrow> (error + ESCPOSSimulator) option" where
  "scan_loop data i sim =
     (if i < length data then
        (case process_byte data i sim of
           Inl e \<Rightarrow> Some (Inl e)
         | Inr (sim', i') \<Rightarrow> scan_loop data i' sim')
      else Some (Inr sim))"

declare scan_loop.simps [code]

text \<open>
  The runs of the same loop as a relation: \<open>scan_run data i sim js k e\<close> says that the
  loop entered at cursor \<open>i\<close> with simulator \<open>sim\<close> executes its body at the cursors
  \<open>js\<close>, in this order, and leaves at cursor \<open>k\<close> with simulator \<open>e\<close>. It leaves
  when the guard \<open>i < len(data)\<close> fails and otherwise runs the body once and goes on.
\<close>

inductive scan_run ::
  "byte list \<Rightarrow> nat \<Rightarrow> ESCPOSSimulator \<Rightarrow> nat list \<Rightarrow> nat \<Rightarrow> ESCPOSSimulator \<Rightarrow> bool"
  for data :: "byte list" where
  exit: "length data \<le> i \<Longrightarrow> scan_run data i sim [] i sim"
| iterate: "i < length data \<Longrightarrow> process_byte data i sim = Inr (sim', i') \<Longrightarrow>
     scan_run data i' sim' js k e \<Longrightarrow> scan_run data i sim (i # js) k e"

code_pred scan_run .

definition print_buffer :: "ESCPOSSimulator \<Rightarrow> error + ESCPOSSimulator" where
  "print_buffer sim =
     (if buffer sim = [] \<and> current_line sim = [] then Inr sim
      else
        err_bind (flush_line sim) (\<lambda>sim.
          let width = chars_per_line (state sim) + 2 in
          Inr (sim\<lparr>console := console sim
                   @ [Receipt_header, Box_top width]
                   @ map (\<lambda>line. if strip line \<noteq> [] then Box_row line else Box_blank width)
                       (buffer sim)
                   @ [Box_bottom width],
                 buffer := []\<rparr>)))"

definition process_data ::
  "byte list \<Rightarrow> ESCPOSSimulator \<Rightarrow> (error + ESCPOSSimulator) option" where
  "process_data data sim =
     (case scan_loop data 0 (sim\<lparr>console := console sim @ [Received_hex data]\<rparr>) of
        None \<Rightarrow> None
      | Some (Inl e) \<Rightarrow> Some (Inl e)
      | Some (Inr sim') \<Rightarrow> Some (print_buffer sim'))"

section \<open>The rendering steps as the specification words them\<close>

text \<open>
  The four steps of the rendering algorithm, each as a function of its own, to be
  compared with \<open>format_line\<close>: the effective width, the justification, the bold
  annotation and the expansion. Centring is worded as the code performs it: an odd
  amount of padding puts its extra space on the right for an even width and on the left
  for an odd width.
\<close>

definition effective_width :: "PrinterState \<Rightarrow> int" where
  "effective_width st =
     (let w = chars_per_line st;
          w = (if double_width st then w div 2 else w)
      in if font_size st > 1 then w div font_size st else w)"

definition pad_both :: "int \<Rightarrow> string \<Rightarrow> string" where
  "pad_both w text =
     (let marg = nat (w - int (length text));
          left = (if even w then marg div 2 else (marg + 1) div 2)
      in replicate left CHR '' '' @ text @ replicate (marg - left) CHR '' '')"

definition justify :: "int \<Rightarrow> int \<Rightarrow> string \<Rightarrow> string" where
  "justify a w text =
     (if a = 1 then pad_both w text
      else if a = 2 then replicate (nat (w - int (length text))) CHR '' '' @ text
      else text @ replicate (nat (w - int (length text))) CHR '' '')"

definition annotate :: "PrinterState \<Rightarrow> string \<Rightarrow> string" where
  "annotate st text =
     (if emphasized st then [CHR 0x1B, CHR ''['', CHR ''1'', CHR ''m''] @ text @ [CHR 0x1B, CHR ''['', CHR ''0'', CHR ''m'']
      else text)"

definition expand :: "PrinterState \<Rightarrow> string \<Rightarrow> string" where
  "expand st text = (if double_width st \<or> font_size st > 1 then join_space text else text)"

definition rendered :: "PrinterState \<Rightarrow> string \<Rightarrow> string" where
  "rendered st text = expand st (annotate st (justify (alignment st) (effective_width st) text))"

text \<open>
  The character size as the specification words it: the whole high nibble and the whole
  low nibble of the argument, each plus one, and the greater of the two.
\<close>

definition font_size_by_nibbles :: "byte \<Rightarrow> int" where
  "font_size_by_nibbles n = max (uint (drop_bit 4 n) + 1) (uint (n AND 0x0F) + 1)"

text \<open>
  Centring as the specification words it, with the extra space of an odd padding always
  on the right, and the rendering built on it.
\<close>

definition pad_both_extra_right :: "int \<Rightarrow> string \<Rightarrow> string" where
  "pad_both_extra_right w text =
     (let marg = nat (w - int (length text));
          left = marg div 2
      in replicate left CHR '' '' @ text @ replicate (marg - left) CHR '' '')"

definition rendered_as_claimed :: "PrinterState \<Rightarrow> string \<Rightarrow> string" where
  "rendered_as_claimed st text =
     expand st (annotate st
       (if alignment st = 1 then pad_both_extra_right (effective_width st) text
        else justify (alignment st) (effective_width st) text))"


text \<open>
  The receipt box that \<open>print_buffer\<close> prints for a list of rendered lines: header, top
  border, one row per line (a blank row for a line of whitespace only), bottom border.
\<close>

definition receipt_box :: "int \<Rightarrow> string list \<Rightarrow> console_event list" where
  "receipt_box width lines =
     [Receipt_header, Box_top width]
     @ map (\<lambda>line. if strip line \<noteq> [] then Box_row line else Box_blank width) lines
     @ [Box_bottom width]"

text \<open>
  The effect of one decoded command on the printer state, after the command table of the
  specification. The command at cursor \<open>j\<close> is the initialize command when the byte at
  \<open>j\<close> is ESC and the next byte is \<open>@\<close>; it stores the defaults. Any other command
  whose argument byte is present assigns the fields it names from that byte and no other
  field; everything else leaves the state as it is.
\<close>

definition is_initialize :: "byte list \<Rightarrow> nat \<Rightarrow> bool" where
  "is_initialize data j = (j + 1 < length data \<and> data ! j = ESC \<and> data ! (j + 1) = 0x40)"

definition assign_argument :: "byte list \<Rightarrow> nat \<Rightarrow> PrinterState \<Rightarrow> PrinterState" where
  "assign_argument data j st =
     (if j + 2 < length data then
        (let cmd = data ! (j + 1); n = data ! (j + 2) in
         if data ! j = ESC \<and> cmd = 0x61 then st\<lparr>alignment := uint n mod 3\<rparr>
         else if data ! j = ESC \<and> cmd = 0x45 then st\<lparr>emphasized := (n \<noteq> 0)\<rparr>
         else if data ! j = ESC \<and> cmd = 0x74 then st\<lparr>code_page := uint n\<rparr>
         else if data ! j = ESC \<and> cmd = 0x21 then
           st\<lparr>font_b := (n AND 1 \<noteq> 0), emphasized := (n AND 8 \<noteq> 0),
              double_height := (n AND 16 \<noteq> 0), double_width := (n AND 32 \<noteq> 0)\<rparr>
         else if data ! j = GS \<and> cmd = 0x21 then
           st\<lparr>font_size := max (uint (drop_bit 4 (n AND 0x70)) + 1) (uint (n AND 0x07) + 1)\<rparr>
         else st)
      else st)"

definition decode_state :: "byte list \<Rightarrow> PrinterState \<Rightarrow> nat \<Rightarrow> PrinterState" where
  "decode_state data st j =
     (if is_initialize data j then new_PrinterState else assign_argument data j st)"

section \<open>Basic facts\<close>

lemma err_bind_Inr [simp]: "err_bind (Inr x) f = f x"
  by (simp add: err_bind_def)

lemma err_bind_Inl [simp]: "err_bind (Inl e) f = Inl e"
  by (simp add: err_bind_def)

lemma center_pad_both: "center text w = pad_both w text"
proof (cases "int (length text) \<ge> w")
  case True
  then show ?thesis by (simp add: center_def pad_both_def)
next
  case False
  define marg where "marg = w - int (length text)"
  define left where "left = marg div 2 + (if odd marg \<and> odd w then 1 else 0)"
  have pos: "0 < marg" using False by (simp add: marg_def)
  have l: "nat left = (if even w then nat marg div 2 else (nat marg + 1) div 2)"
  proof -
    obtain m :: nat where m: "marg = int m" using pos by (metis nat_0_le less_imp_le)
    have "left = int (m div 2 + (if odd m \<and> odd w then 1 else 0))"
      by (simp add: left_def m zdiv_int)
    then have "nat left = m div 2 + (if odd m \<and> odd w then 1 else 0)"
      by (metis nat_int)
    also have "\<dots> = (if even w then m div 2 else (m + 1) div 2)"
      by (cases "even m") (auto elim!: oddE evenE)
    finally show ?thesis by (simp add: m)
  qed
  have r: "nat (marg - left) = nat marg - nat left"
    using pos unfolding left_def by (simp add: nat_diff_distrib)
  have "center text w =
      replicate (nat left) CHR '' '' @ text @ replicate (nat (marg - left)) CHR '' ''"
    using False by (simp add: center_def marg_def left_def Let_def)
  moreover have "pad_both w text =
      replicate (nat left) CHR '' '' @ text @ replicate (nat marg - nat left) CHR '' ''"
    unfolding pad_both_def marg_def [symmetric] by (simp add: Let_def l)
  ultimately show ?thesis by (simp add: r)
qed

lemma format_line_rendered: "format_line st text = Inr (rendered st text)"
  by (simp add: format_line_def rendered_def expand_def annotate_def justify_def
      effective_width_def floordiv_def Let_def center_pad_both ljust_def rjust_def)

lemma flush_line_Inr:
  "flush_line sim =
     Inr (if current_line sim = [] then sim
          else sim\<lparr>buffer := buffer sim @ [rendered (state sim) (current_line sim)],
                   current_line := []\<rparr>)"
  by (simp add: flush_line_def format_line_rendered)

section \<open>Every step returns and advances the cursor\<close>

lemma handle_esc_sequence_advance:
  "\<exists>s' i'. handle_esc_sequence data i sim = Inr (s', i') \<and> i < i' \<and> console s' = console sim"
  by (simp add: handle_esc_sequence_def getb_def flush_line_Inr)

lemma handle_gs_sequence_advance:
  "\<exists>s' i'. handle_gs_sequence data i sim = Inr (s', i') \<and> i < i' \<and> console s' = console sim"
  by (simp add: handle_gs_sequence_def getb_def flush_line_Inr Let_def)

lemma handle_fs_sequence_advance:
  "\<exists>s' i'. handle_fs_sequence data i sim = Inr (s', i') \<and> i < i' \<and> console s' = console sim"
  by (simp add: handle_fs_sequence_def getb_def)

lemma process_byte_advance:
  assumes "i < length data"
  shows "\<exists>s' i'. process_byte data i sim = Inr (s', i') \<and> i < i' \<and> console s' = console sim"
  using assms handle_esc_sequence_advance [of data i sim]
    handle_gs_sequence_advance [of data i sim] handle_fs_sequence_advance [of data i sim]
  by (simp add: process_byte_def getb_def flush_line_Inr)

lemma scan_loop_invariant:
  assumes init: "P sim"
    and step: "\<And>j s s' j'. j < length data \<Longrightarrow> P s \<Longrightarrow> process_byte data j s = Inr (s', j') \<Longrightarrow> P s'"
  shows "\<exists>s'. scan_loop data i sim = Some (Inr s') \<and> P s'"
  using init
proof (induction "length data - i" arbitrary: i sim rule: less_induct)
  case less
  show ?case
  proof (cases "i < length data")
    case True
    from process_byte_advance [OF True, of sim] obtain s1 i1 where
      pb: "process_byte data i sim = Inr (s1, i1)" and adv: "i < i1" by blast
    have "P s1" using step [OF True less.prems pb] .
    moreover have "length data - i1 < length data - i" using True adv by arith
    ultimately obtain s' where "scan_loop data i1 s1 = Some (Inr s')" "P s'"
      using less.hyps by blast
    then show ?thesis using True pb by (subst scan_loop.simps) simp
  next
    case False
    then show ?thesis using less.prems by (subst scan_loop.simps) simp
  qed
qed

lemma print_buffer_Inr:
  "print_buffer sim =
     Inr (if buffer sim = [] \<and> current_line sim = [] then sim
          else sim\<lparr>console := console sim
                   @ [Receipt_header, Box_top (chars_per_line (state sim) + 2)]
                   @ map (\<lambda>line. if strip line \<noteq> [] then Box_row line
                                  else Box_blank (chars_per_line (state sim) + 2))
                       (buffer sim @ (if current_line sim = [] then []
                                       else [rendered (state sim) (current_line sim)]))
                   @ [Box_bottom (chars_per_line (state sim) + 2)],
                 buffer := [], current_line := []\<rparr>)"
  by (simp add: print_buffer_def flush_line_Inr Let_def)

lemma scan_loop_returns: "\<exists>s'. scan_loop data i sim = Some (Inr s')"
  using scan_loop_invariant [of "\<lambda>_. True" sim data i] by simp

lemma process_data_print_buffer:
  "scan_loop data 0 (sim\<lparr>console := console sim @ [Received_hex data]\<rparr>) = Some (Inr e)
   \<Longrightarrow> process_data data sim = Some (print_buffer e)"
  by (simp add: process_data_def)

section \<open>Safety and termination of the decoder\<close>

text \<open>
  C1: whatever the bytes are, \<open>process_data\<close> runs to completion without raising: the
  result is a simulator, never an exception. The sub-decoders return a result at every
  cursor, so no index access of theirs leaves the data, and flushing and printing raise
  nothing either.
\<close>

theorem process_data_never_raises:
  "(\<exists>s'. process_data data sim = Some (Inr s')) \<and>
   (\<exists>r. handle_esc_sequence data i sim = Inr r) \<and>
   (\<exists>r. handle_gs_sequence data i sim = Inr r) \<and>
   (\<exists>r. handle_fs_sequence data i sim = Inr r) \<and>
   (\<exists>r. flush_line sim = Inr r) \<and>
   (\<exists>r. print_buffer sim = Inr r)"
proof -
  obtain e where "scan_loop data 0 (sim\<lparr>console := console sim @ [Received_hex data]\<rparr>) = Some (Inr e)"
    using scan_loop_returns by blast
  then have "process_data data sim = Some (print_buffer e)"
    by (rule process_data_print_buffer)
  then have "\<exists>s'. process_data data sim = Some (Inr s')"
    by (simp add: print_buffer_Inr)
  moreover have "\<exists>r. handle_esc_sequence data i sim = Inr r"
    using handle_esc_sequence_advance [of data i sim] by blast
  moreover have "\<exists>r. handle_gs_sequence data i sim = Inr r"
    using handle_gs_sequence_advance [of data i sim] by blast
  moreover have "\<exists>r. handle_fs_sequence data i sim = Inr r"
    using handle_fs_sequence_advance [of data i sim] by blast
  moreover have "\<exists>r. flush_line sim = Inr r"
    by (simp add: flush_line_Inr)
  moreover have "\<exists>r. print_buffer sim = Inr r"
    by (simp add: print_buffer_Inr)
  ultimately show ?thesis by blast
qed

lemma scan_run_deterministic:
  assumes "scan_run data i sim js k e" and "scan_run data i sim js' k' e'"
  shows "js' = js \<and> k' = k \<and> e' = e"
  using assms
proof (induction arbitrary: js' k' e' rule: scan_run.induct)
  case (exit i sim)
  from exit.prems exit.hyps show ?case by (cases rule: scan_run.cases) auto
next
  case (iterate i sim sim' i' js k e)
  from iterate.prems show ?case
  proof (cases rule: scan_run.cases)
    case exit
    with iterate.hyps show ?thesis by simp
  next
    case (iterate sim'' i'' js'')
    with iterate.hyps iterate.IH [of js'' k' e'] show ?thesis by simp
  qed
qed

lemma scan_loop_run:
  "\<exists>js k e. scan_run data i sim js k e \<and> scan_loop data i sim = Some (Inr e) \<and>
     length data \<le> k \<and> i \<le> k \<and> sorted_wrt (<) (js @ [k]) \<and>
     (\<forall>j \<in> set js. i \<le> j \<and> j < length data)"
proof (induction "length data - i" arbitrary: i sim rule: less_induct)
  case less
  show ?case
  proof (cases "i < length data")
    case True
    from process_byte_advance [OF True, of sim] obtain s1 i1 where
      pb: "process_byte data i sim = Inr (s1, i1)" and adv: "i < i1" by blast
    have "length data - i1 < length data - i" using True adv by arith
    from less.hyps [OF this] obtain js k e where
      run: "scan_run data i1 s1 js k e" and loop: "scan_loop data i1 s1 = Some (Inr e)" and
      k: "length data \<le> k" "i1 \<le> k" and srt: "sorted_wrt (<) (js @ [k])" and
      bnd: "\<forall>j \<in> set js. i1 \<le> j \<and> j < length data" by blast
    have "scan_run data i sim (i # js) k e"
      using True pb run by (rule scan_run.iterate)
    moreover have "scan_loop data i sim = Some (Inr e)"
      using True pb loop by (subst scan_loop.simps) simp
    moreover have "sorted_wrt (<) ((i # js) @ [k])"
      using srt bnd adv k by auto
    moreover have "\<forall>j \<in> set (i # js). i \<le> j \<and> j < length data"
      using bnd adv True by auto
    moreover have "i \<le> k" using adv k by simp
    ultimately show ?thesis using k by blast
  next
    case False
    then have "scan_run data i sim [] i sim" by (simp add: scan_run.exit)
    moreover have "scan_loop data i sim = Some (Inr sim)"
      using False by (subst scan_loop.simps) simp
    ultimately show ?thesis using False by fastforce
  qed
qed

lemma example_run:
  "scan_run [CR, ESC, 0x45, 0x01, ESC, 0x61] 0 (new_ESCPOSSimulator 9100) [0, 1, 4] 7
     ((new_ESCPOSSimulator 9100)\<lparr>state := new_PrinterState\<lparr>emphasized := True\<rparr>\<rparr>)"
proof -
  let ?D = "[CR, ESC, 0x45, 0x01, ESC, 0x61] :: byte list"
  let ?S = "new_ESCPOSSimulator 9100"
  let ?E = "?S\<lparr>state := new_PrinterState\<lparr>emphasized := True\<rparr>\<rparr>"
  have 0: "process_byte ?D 0 ?S = Inr (?S, 1)"
    by (simp add: process_byte_def getb_def)
  have 1: "process_byte ?D 1 ?S = Inr (?E, 4)"
    by (simp add: process_byte_def handle_esc_sequence_def getb_def new_ESCPOSSimulator_def)
  have 4: "process_byte ?D 4 ?E = Inr (?E, 7)"
    by (simp add: process_byte_def handle_esc_sequence_def getb_def)
  have "scan_run ?D 7 ?E [] 7 ?E" by (rule scan_run.exit) simp
  then have "scan_run ?D 4 ?E [4] 7 ?E" using 4 by (intro scan_run.iterate) simp_all
  then have "scan_run ?D 1 ?S [1, 4] 7 ?E" using 1 by (intro scan_run.iterate) simp_all
  then show "scan_run ?D 0 ?S [0, 1, 4] 7 ?E" using 0 by (intro scan_run.iterate) simp_all
qed

text \<open>
  C2: decoding terminates. From every cursor the scan loop returns, and what it returns is
  the simulator at the end of its run: the body is executed at a strictly increasing
  sequence of cursors inside the data, so no byte is decoded twice, and the loop leaves
  with a cursor at or past the end of the data. Every execution of the body returns a
  cursor strictly greater than the one it started from, and \<open>process_data\<close> returns the
  simulator that \<open>print_buffer\<close> makes of the end of that run.
\<close>

theorem scan_terminates_cursor_increases:
  "(\<exists>js k e. scan_run data i sim js k e \<and> scan_loop data i sim = Some (Inr e) \<and>
      length data \<le> k \<and> sorted_wrt (<) (js @ [k]) \<and>
      (\<forall>j \<in> set js. i \<le> j \<and> j < length data)) \<and>
   (\<exists>js k e s'. scan_run data 0 (sim\<lparr>console := console sim @ [Received_hex data]\<rparr>) js k e \<and>
      length data \<le> k \<and> print_buffer e = Inr s' \<and> process_data data sim = Some (Inr s')) \<and>
   (\<forall>j s. j < length data \<longrightarrow>
      (\<exists>s' j'. process_byte data j s = Inr (s', j') \<and> j < j'))"
proof (intro conjI allI impI)
  show "\<exists>js k e. scan_run data i sim js k e \<and> scan_loop data i sim = Some (Inr e) \<and>
      length data \<le> k \<and> sorted_wrt (<) (js @ [k]) \<and>
      (\<forall>j \<in> set js. i \<le> j \<and> j < length data)"
    using scan_loop_run [of data i sim] by blast
next
  from scan_loop_run [of data 0 "sim\<lparr>console := console sim @ [Received_hex data]\<rparr>"]
  obtain js k e where
    run: "scan_run data 0 (sim\<lparr>console := console sim @ [Received_hex data]\<rparr>) js k e" and
    loop: "scan_loop data 0 (sim\<lparr>console := console sim @ [Received_hex data]\<rparr>) = Some (Inr e)" and
    k: "length data \<le> k" by blast
  obtain s' where pb: "print_buffer e = Inr s'" by (simp add: print_buffer_Inr)
  have "process_data data sim = Some (Inr s')"
    using process_data_print_buffer [OF loop] pb by simp
  with run k pb
  show "\<exists>js k e s'. scan_run data 0 (sim\<lparr>console := console sim @ [Received_hex data]\<rparr>) js k e \<and>
      length data \<le> k \<and> print_buffer e = Inr s' \<and> process_data data sim = Some (Inr s')"
    by blast
next
  fix j s
  assume "j < length data"
  from process_byte_advance [OF this, of s]
  show "\<exists>s' j'. process_byte data j s = Inr (s', j') \<and> j < j'" by blast
qed

theorem scan_terminates_cursor_increases_witness:
  "scan_run [CR, ESC, 0x45, 0x01, ESC, 0x61] 0 (new_ESCPOSSimulator 9100) [0, 1, 4] 7
     ((new_ESCPOSSimulator 9100)\<lparr>state := new_PrinterState\<lparr>emphasized := True\<rparr>\<rparr>) \<and>
   scan_loop [CR, ESC, 0x45, 0x01, ESC, 0x61] 0 (new_ESCPOSSimulator 9100)
     = Some (Inr ((new_ESCPOSSimulator 9100)\<lparr>state := new_PrinterState\<lparr>emphasized := True\<rparr>\<rparr>)) \<and>
   length [CR, ESC, 0x45, 0x01, ESC, 0x61 :: byte] \<le> 7 \<and>
   sorted_wrt (<) ([0, 1, 4] @ [7 :: nat]) \<and>
   (4 :: nat) < length [CR, ESC, 0x45, 0x01, ESC, 0x61 :: byte] \<and>
   (\<exists>s' j'. process_byte [CR, ESC, 0x45, 0x01, ESC, 0x61] 4
                ((new_ESCPOSSimulator 9100)\<lparr>state := new_PrinterState\<lparr>emphasized := True\<rparr>\<rparr>)
              = Inr (s', j') \<and> 4 < j')"
proof -
  let ?D = "[CR, ESC, 0x45, 0x01, ESC, 0x61] :: byte list"
  let ?S = "new_ESCPOSSimulator 9100"
  let ?E = "?S\<lparr>state := new_PrinterState\<lparr>emphasized := True\<rparr>\<rparr>"
  note inst = scan_terminates_cursor_increases [of ?D 0 ?S]
  from inst obtain js k e where
    run: "scan_run ?D 0 ?S js k e" and loop: "scan_loop ?D 0 ?S = Some (Inr e)" and
    k: "length ?D \<le> k" and srt: "sorted_wrt (<) (js @ [k])" by blast
  from scan_run_deterministic [OF example_run run]
  have eq: "js = [0, 1, 4]" "k = 7" "e = ?E" by simp_all
  have step: "\<exists>s' j'. process_byte ?D 4 ?E = Inr (s', j') \<and> 4 < j'"
    using inst by simp
  show ?thesis
    using example_run loop k srt step unfolding eq by simp
qed

section \<open>The initialize command\<close>

text \<open>
  C4: the initialize command (ESC @) at any cursor replaces the printer state by the
  documented defaults, whatever the state was, and consumes exactly two bytes: alignment
  left, emphasis and both doubling flags off, font size 1, every other style flag off.
\<close>

theorem initialize_resets_state:
  assumes "i + 1 < length data" and "data ! i = ESC" and "data ! (i + 1) = 0x40"
  shows "process_byte data i sim =
           Inr (sim\<lparr>state :=
                  \<lparr> chars_per_line = 48, alignment = 0, bold = False, underline = False,
                    double_width = False, double_height = False, font_size = 1,
                    char_spacing = 0, line_spacing = 30, code_page = 0,
                    white_on_black = False, upside_down = False, emphasized = False,
                    double_strike = False, font_b = False, italic = False \<rparr>\<rparr>, i + 2) \<and>
         handle_esc_sequence data i sim = process_byte data i sim"
  using assms
  by (simp add: process_byte_def handle_esc_sequence_def getb_def new_PrinterState_def)

theorem initialize_resets_state_witness:
  "process_byte [0x41, ESC, 0x40]  1
     ((new_ESCPOSSimulator 9100)
        \<lparr>state := new_PrinterState\<lparr>alignment := 2, emphasized := True, double_width := True,
                                    double_height := True, font_size := 4, font_b := True\<rparr>\<rparr>)
   = Inr (new_ESCPOSSimulator 9100, 3)"
  using initialize_resets_state [of 1 "[0x41, ESC, 0x40]"
      "(new_ESCPOSSimulator 9100)
        \<lparr>state := new_PrinterState\<lparr>alignment := 2, emphasized := True, double_width := True,
                                    double_height := True, font_size := 4, font_b := True\<rparr>\<rparr>"]
  by (simp add: new_ESCPOSSimulator_def new_PrinterState_def)

lemma scan_loop_past_end: "length data \<le> i \<Longrightarrow> scan_loop data i sim = Some (Inr sim)"
  by (subst scan_loop.simps) simp

text \<open>
  C9: the initialize command (ESC @) stores a freshly defaulted record as the whole
  printer state, so the line width is 48 afterwards whatever it was before; the pending
  line and the receipt buffer are not touched.
\<close>

theorem initialize_resets_chars_per_line:
  assumes "i + 1 < length data" and "data ! i = ESC" and "data ! (i + 1) = 0x40"
  shows "\<exists>s'. process_byte data i sim = Inr (s', i + 2) \<and> state s' = new_PrinterState \<and>
           chars_per_line (state s') = 48 \<and> buffer s' = buffer sim \<and>
           current_line s' = current_line sim"
  using assms
  by (simp add: process_byte_def handle_esc_sequence_def getb_def new_PrinterState_def)

theorem initialize_resets_chars_per_line_witness:
  "\<exists>s'. process_byte [ESC, 0x40] 0
           ((new_ESCPOSSimulator 9100)\<lparr>state := new_PrinterState\<lparr>chars_per_line := 32\<rparr>\<rparr>)
         = Inr (s', 2) \<and> chars_per_line (state s') = 48"
  using initialize_resets_chars_per_line [of 0 "[ESC, 0x40]"
      "(new_ESCPOSSimulator 9100)\<lparr>state := new_PrinterState\<lparr>chars_per_line := 32\<rparr>\<rparr>"]
  by auto

section \<open>A justification command without its argument\<close>

text \<open>
  C5, as the specification states it: on the two bytes ESC, 'a' the cursor would advance
  by exactly the two bytes present. The sub-decoder returns the cursor 3, one past the
  end of the input.
\<close>

theorem truncated_justification_cursor_counterexample:
  "handle_esc_sequence [ESC, 0x61] 0 (new_ESCPOSSimulator 9100)
     = Inr (new_ESCPOSSimulator 9100, 3) \<and>
   handle_esc_sequence [ESC, 0x61] 0 (new_ESCPOSSimulator 9100)
     \<noteq> Inr (new_ESCPOSSimulator 9100, 0 + length [ESC, 0x61 :: byte])"
  by (simp add: handle_esc_sequence_def getb_def)

text \<open>
  C5, amended: on the two bytes ESC, 'a' the sub-decoder reads only the bytes present and
  changes nothing, alignment included; it returns the cursor 3, the length of the
  complete command, which ends the scan loop. The printer state after the batch is the
  state before it.
\<close>

theorem truncated_justification_reads_present_bytes:
  "handle_esc_sequence [ESC, 0x61] 0 sim = Inr (sim, 3) \<and>
   process_byte [ESC, 0x61] 0 sim = Inr (sim, 3) \<and>
   scan_loop [ESC, 0x61] 0 sim = Some (Inr sim) \<and>
   (\<exists>s'. process_data [ESC, 0x61] sim = Some (Inr s') \<and> state s' = state sim)"
proof -
  have h: "handle_esc_sequence [ESC, 0x61] 0 sim = Inr (sim, 3)"
    by (simp add: handle_esc_sequence_def getb_def)
  have p: "process_byte [ESC, 0x61] 0 sim = Inr (sim, 3)" for sim
    by (simp add: process_byte_def handle_esc_sequence_def getb_def)
  have l: "scan_loop [ESC, 0x61] 0 sim = Some (Inr sim)" for sim
    by (subst scan_loop.simps) (simp add: p scan_loop_past_end)
  have "process_data [ESC, 0x61] sim
      = Some (print_buffer (sim\<lparr>console := console sim @ [Received_hex [ESC, 0x61]]\<rparr>))"
    by (simp add: process_data_def l)
  then have "\<exists>s'. process_data [ESC, 0x61] sim = Some (Inr s') \<and> state s' = state sim"
    by (simp add: print_buffer_Inr)
  with h p l show ?thesis by blast
qed

section \<open>The character size command\<close>

lemma mask_3_byte: "(7 :: 8 word) = mask 3" by (simp add: mask_eq_exp_minus_1)
lemma mask_4_byte: "(15 :: 8 word) = mask 4" by (simp add: mask_eq_exp_minus_1)

lemma uint_and_7: "uint (n AND 7 :: 8 word) = uint n mod 8"
  unfolding mask_3_byte by (simp add: uint_mod_distrib take_bit_eq_mod flip: take_bit_eq_mask)

lemma uint_and_15: "uint (n AND 15 :: 8 word) = uint n mod 16"
  unfolding mask_4_byte by (simp add: uint_mod_distrib take_bit_eq_mod flip: take_bit_eq_mask)

lemma uint_drop_4: "uint (drop_bit 4 (n :: 8 word)) = uint n div 16"
  by (simp add: uint_div_distrib drop_bit_eq_div)

lemma mask_112_byte: "(0x70 :: 8 word) = push_bit 4 (mask 3)"
  by (simp add: mask_eq_exp_minus_1 push_bit_eq_mult)

lemma drop_and_112: "drop_bit 4 (n AND 0x70 :: 8 word) = take_bit 3 (drop_bit 4 n)"
  unfolding mask_112_byte
  by (rule bit_word_eqI) (auto simp: bit_simps)

lemma uint_and_112: "uint (drop_bit 4 (n AND 0x70 :: 8 word)) = uint n div 16 mod 8"
  unfolding drop_and_112
  by (simp add: uint_mod_distrib take_bit_eq_mod uint_drop_4)


lemma no_reserved_bits:
  fixes n :: "8 word"
  assumes z: "n AND 0x88 = 0"
  shows "uint n div 16 mod 8 = uint n div 16" and "uint n mod 8 = uint n mod 16"
proof -
  define k where "k = uint n"
  have "bit (n AND 0x88) 3 = bit (0 :: 8 word) 3" "bit (n AND 0x88) 7 = bit (0 :: 8 word) 7"
    using z by simp_all
  then have "\<not> bit n 3" "\<not> bit n 7"
    by (simp_all add: bit_and_iff)
  then have b: "\<not> bit k 3" "\<not> bit k 7"
    by (simp_all add: k_def bit_uint_iff)
  have r: "0 \<le> k" "k < 256" using uint_lt2p [of n] by (simp_all add: k_def)
  have "take_bit (Suc 3) k = 2 ^ 3 * of_bool (bit k 3) + take_bit 3 k"
    by (rule take_bit_Suc_from_most)
  then have "k mod 16 = k mod 8" using b by (simp add: take_bit_eq_mod)
  then show "uint n mod 8 = uint n mod 16" by (simp add: k_def)
  have d: "k div 16 < 16" "0 \<le> k div 16" using r by simp_all
  have "take_bit (Suc 3) (drop_bit 4 k) = 2 ^ 3 * of_bool (bit (drop_bit 4 k) 3) + take_bit 3 (drop_bit 4 k)"
    by (rule take_bit_Suc_from_most)
  moreover have "bit (drop_bit 4 k) 3 = bit k 7" by (simp add: bit_drop_bit_eq)
  ultimately have "k div 16 mod 16 = k div 16 mod 8"
    using b by (simp add: take_bit_eq_mod drop_bit_eq_div)
  then show "uint n div 16 mod 8 = uint n div 16" using d by (simp add: k_def)
qed


text \<open>
  C6, as the specification states it: the magnifications would be the nibbles of the
  argument plus one. For the argument 0x08 the low nibble is 8, which would give the
  font size 9; the code masks the argument with 0x07 and sets the font size 1.
\<close>

theorem character_size_nibbles_counterexample:
  "handle_gs_sequence [GS, 0x21, 0x08] 0 (new_ESCPOSSimulator 9100)
     = Inr ((new_ESCPOSSimulator 9100)\<lparr>state := new_PrinterState\<lparr>font_size := 1\<rparr>\<rparr>, 3) \<and>
   font_size_by_nibbles 0x08 = 9 \<and>
   handle_gs_sequence [GS, 0x21, 0x08] 0 (new_ESCPOSSimulator 9100)
     \<noteq> Inr ((new_ESCPOSSimulator 9100)
              \<lparr>state := new_PrinterState\<lparr>font_size := font_size_by_nibbles 0x08\<rparr>\<rparr>, 3)"
  by (simp add: handle_gs_sequence_def getb_def font_size_by_nibbles_def new_ESCPOSSimulator_def
      new_PrinterState_def)

text \<open>
  C6, amended: for every argument byte, GS ! takes bits 4 to 6 of the argument as
  the width magnification and bits 0 to 2 as the height magnification, each plus one,
  and sets the font size to the greater of the two; bits 3 and 7 are ignored. When both
  of these bits are clear the two fields are the nibbles of the argument.
\<close>

theorem character_size_three_bit_fields:
  assumes "i + 2 < length data" and "data ! (i + 1) = 0x21"
  shows "handle_gs_sequence data i sim =
           Inr (sim\<lparr>state := (state sim)
                  \<lparr>font_size := max (uint (data ! (i + 2)) div 16 mod 8 + 1)
                                   (uint (data ! (i + 2)) mod 8 + 1)\<rparr>\<rparr>, i + 3) \<and>
         (data ! i = GS \<longrightarrow> process_byte data i sim = handle_gs_sequence data i sim) \<and>
         (data ! (i + 2) AND 0x88 = 0 \<longrightarrow>
            max (uint (data ! (i + 2)) div 16 mod 8 + 1) (uint (data ! (i + 2)) mod 8 + 1)
              = font_size_by_nibbles (data ! (i + 2)))"
proof (intro conjI impI)
  show "handle_gs_sequence data i sim =
           Inr (sim\<lparr>state := (state sim)
                  \<lparr>font_size := max (uint (data ! (i + 2)) div 16 mod 8 + 1)
                                   (uint (data ! (i + 2)) mod 8 + 1)\<rparr>\<rparr>, i + 3)"
    using assms
    by (simp add: handle_gs_sequence_def getb_def Let_def uint_and_112 uint_and_7 uint_drop_4)
next
  assume "data ! i = GS"
  then show "process_byte data i sim = handle_gs_sequence data i sim"
    using assms by (simp add: process_byte_def getb_def)
next
  assume "data ! (i + 2) AND 0x88 = 0"
  from no_reserved_bits [OF this]
  show "max (uint (data ! (i + 2)) div 16 mod 8 + 1) (uint (data ! (i + 2)) mod 8 + 1)
              = font_size_by_nibbles (data ! (i + 2))"
    by (simp add: font_size_by_nibbles_def uint_drop_4 uint_and_15)
qed

theorem character_size_three_bit_fields_witness:
  "handle_gs_sequence [GS, 0x21, 0x32] 0 (new_ESCPOSSimulator 9100)
     = Inr ((new_ESCPOSSimulator 9100)\<lparr>state := new_PrinterState\<lparr>font_size := 4\<rparr>\<rparr>, 3) \<and>
   process_byte [GS, 0x21, 0x32] 0 (new_ESCPOSSimulator 9100)
     = handle_gs_sequence [GS, 0x21, 0x32] 0 (new_ESCPOSSimulator 9100) \<and>
   (0x32 :: byte) AND 0x88 = 0 \<and> font_size_by_nibbles 0x32 = 4"
  using character_size_three_bit_fields [of 0 "[GS, 0x21, 0x32]" "new_ESCPOSSimulator 9100"]
  by (simp add: new_ESCPOSSimulator_def)

section \<open>The cut command\<close>

text \<open>
  C7: the cut command (GS V) flushes the current line and then appends exactly one line of
  \<open>chars_per_line\<close> separator characters to the receipt buffer, and returns the cursor
  advanced by 3. The separator line is the same for every printer state with the same
  line width, whatever its alignment, emphasis, doubling flags and font size.
\<close>

theorem cut_paper_appends_separator:
  assumes "i + 1 < length data" and "data ! (i + 1) = 0x56"
  shows "handle_gs_sequence data i sim =
           Inr (sim\<lparr>buffer := buffer sim
                    @ (if current_line sim = [] then []
                       else [rendered (state sim) (current_line sim)])
                    @ [replicate (nat (chars_per_line (state sim))) CHR ''-''],
                  current_line := []\<rparr>, i + 3) \<and>
         (data ! i = GS \<longrightarrow> process_byte data i sim = handle_gs_sequence data i sim) \<and>
         (\<forall>st. chars_per_line st = chars_per_line (state sim) \<longrightarrow>
            (\<exists>s. handle_gs_sequence data i (sim\<lparr>state := st\<rparr>) = Inr (s, i + 3) \<and>
                 last (buffer s) = replicate (nat (chars_per_line (state sim))) CHR ''-''))"
proof -
  have cut: "handle_gs_sequence data i s =
           Inr (s\<lparr>buffer := buffer s
                    @ (if current_line s = [] then []
                       else [rendered (state s) (current_line s)])
                    @ [replicate (nat (chars_per_line (state s))) CHR ''-''],
                  current_line := []\<rparr>, i + 3)" for s
    using assms by (simp add: handle_gs_sequence_def getb_def flush_line_Inr)
  have "data ! i = GS \<longrightarrow> process_byte data i sim = handle_gs_sequence data i sim"
    using assms by (simp add: process_byte_def getb_def)
  moreover have "\<forall>st. chars_per_line st = chars_per_line (state sim) \<longrightarrow>
            (\<exists>s. handle_gs_sequence data i (sim\<lparr>state := st\<rparr>) = Inr (s, i + 3) \<and>
                 last (buffer s) = replicate (nat (chars_per_line (state sim))) CHR ''-'')"
    by (simp add: cut)
  ultimately show ?thesis using cut [of sim] by blast
qed

theorem cut_paper_appends_separator_witness:
  "handle_gs_sequence [0x41, GS, 0x56, 0x00] 1
      ((new_ESCPOSSimulator 9100)
         \<lparr>state := new_PrinterState\<lparr>chars_per_line := 8, alignment := 2, emphasized := True,
                                     double_width := True, font_size := 3\<rparr>,
          current_line := ''A''\<rparr>)
    = Inr ((new_ESCPOSSimulator 9100)
         \<lparr>state := new_PrinterState\<lparr>chars_per_line := 8, alignment := 2, emphasized := True,
                                     double_width := True, font_size := 3\<rparr>,
          buffer := [[CHR 0x1B, CHR '' '', CHR ''['', CHR '' '', CHR ''1'', CHR '' '', CHR ''m'',
                      CHR '' '', CHR ''A'', CHR '' '', CHR 0x1B, CHR '' '', CHR ''['', CHR '' '',
                      CHR ''0'', CHR '' '', CHR ''m''], replicate 8 CHR ''-'']\<rparr>, 4)"
  using cut_paper_appends_separator [of 1 "[0x41, GS, 0x56, 0x00]"
      "(new_ESCPOSSimulator 9100)
         \<lparr>state := new_PrinterState\<lparr>chars_per_line := 8, alignment := 2, emphasized := True,
                                     double_width := True, font_size := 3\<rparr>,
          current_line := ''A''\<rparr>"]
  by (simp add: new_ESCPOSSimulator_def new_PrinterState_def rendered_def expand_def
      annotate_def justify_def effective_width_def)

section \<open>Rendering a line\<close>

lemma char_of_h_i: "char_of (104 :: nat) = CHR ''h''" "char_of (105 :: nat) = CHR ''i''"
  by code_simp+

lemma replicate_numeral: "replicate (numeral k) x = x # replicate (pred_numeral k) x"
  by (simp add: numeral_eq_Suc)

text \<open>
  C3, as the specification states it: centring would put the extra space of an odd padding
  on the right. With font size 5 the effective width is 9; centring "hi" to 9 gives four
  spaces on the left and three on the right, and the rendered line differs from the one
  the specification describes.
\<close>

theorem centring_extra_space_counterexample:
  "format_line (new_PrinterState\<lparr>alignment := 1, font_size := 5\<rparr>) ''hi''
     = Inr ''        h i      '' \<and>
   rendered_as_claimed (new_PrinterState\<lparr>alignment := 1, font_size := 5\<rparr>) ''hi''
     = ''      h i        '' \<and>
   format_line (new_PrinterState\<lparr>alignment := 1, font_size := 5\<rparr>) ''hi''
     \<noteq> Inr (rendered_as_claimed (new_PrinterState\<lparr>alignment := 1, font_size := 5\<rparr>) ''hi'') \<and>
   center ''hi'' 9 = ''    hi   '' \<and>
   pad_both_extra_right 9 ''hi'' = ''   hi    '' \<and>
   process_data [GS, 0x21, 0x04, ESC, 0x61, 0x01, 0x68, 0x69, LF] (new_ESCPOSSimulator 9100)
     = Some (Inr ((new_ESCPOSSimulator 9100)
         \<lparr>state := new_PrinterState\<lparr>alignment := 1, font_size := 5\<rparr>,
           console := [Received_hex [GS, 0x21, 0x04, ESC, 0x61, 0x01, 0x68, 0x69, LF],
                       Receipt_header, Box_top 50, Box_row ''        h i      '',
                       Box_bottom 50]\<rparr>))"
  by (simp add: format_line_def floordiv_def center_def rendered_as_claimed_def
      pad_both_extra_right_def expand_def annotate_def effective_width_def
      new_PrinterState_def Let_def replicate_numeral
      process_data_def scan_loop.simps process_byte_def handle_esc_sequence_def
      handle_gs_sequence_def getb_def flush_line_def print_buffer_def
      new_ESCPOSSimulator_def strip_def isspace_def char_of_h_i)

lemma length_justify:
  "length (justify a w text) = max (length text) (nat w)"
  by (auto simp: justify_def pad_both_def Let_def)

text \<open>
  C3, amended: \<open>format_line\<close> renders in this order: (1) the effective width is
  \<open>chars_per_line\<close>, halved if \<open>double_width\<close> is set, then divided by \<open>font_size\<close>
  when that exceeds 1; (2) the text is justified to the effective width: left pads on the
  right, right pads on the left, centre pads both sides as evenly as possible, the extra
  space of an odd padding going to the right for an even width and to the left for an odd
  width; a text at least as long as the width is kept as it is; (3) if emphasized, the
  justified text is wrapped in the bold annotation; (4) if \<open>double_width\<close> or
  \<open>font_size > 1\<close>, one space is put between every two characters of the annotated
  string.
\<close>

theorem format_line_steps_in_order:
  "format_line st text =
     Inr (expand st (annotate st (justify (alignment st) (effective_width st) text))) \<and>
   length (justify (alignment st) (effective_width st) text)
     = max (length text) (nat (effective_width st)) \<and>
   (even (effective_width st) \<longrightarrow>
      pad_both (effective_width st) text = pad_both_extra_right (effective_width st) text) \<and>
   (alignment st = 1 \<longrightarrow>
      justify (alignment st) (effective_width st) text = center text (effective_width st))"
proof (intro conjI impI)
  show "format_line st text =
     Inr (expand st (annotate st (justify (alignment st) (effective_width st) text)))"
    using format_line_rendered [of st "text"] by (simp add: rendered_def)
  show "length (justify (alignment st) (effective_width st) text)
     = max (length text) (nat (effective_width st))"
    by (rule length_justify)
next
  assume "even (effective_width st)"
  then show "pad_both (effective_width st) text = pad_both_extra_right (effective_width st) text"
    by (simp add: pad_both_def pad_both_extra_right_def)
next
  assume "alignment st = 1"
  then show "justify (alignment st) (effective_width st) text = center text (effective_width st)"
    by (simp add: justify_def center_pad_both)
qed

theorem format_line_steps_in_order_witness:
  "format_line (new_PrinterState\<lparr>chars_per_line := 10, alignment := 1, double_width := True,
                                  emphasized := True\<rparr>) ''AB''
     = Inr [CHR 0x1B, CHR '' '', CHR ''['', CHR '' '', CHR ''1'', CHR '' '', CHR ''m'',
            CHR '' '', CHR '' '', CHR '' '', CHR '' '', CHR '' '', CHR ''A'', CHR '' '', CHR ''B'',
            CHR '' '', CHR '' '', CHR '' '', CHR 0x1B, CHR '' '', CHR ''['', CHR '' '',
            CHR ''0'', CHR '' '', CHR ''m''] \<and>
   format_line (new_PrinterState\<lparr>chars_per_line := 10, alignment := 1\<rparr>) ''abc''
     = Inr ''   abc    '' \<and>
   even (effective_width (new_PrinterState\<lparr>chars_per_line := 10, alignment := 1\<rparr>)) \<and>
   pad_both_extra_right 10 ''abc'' = ''   abc    ''"
  using format_line_steps_in_order
      [of "new_PrinterState\<lparr>chars_per_line := 10, alignment := 1, double_width := True,
                                  emphasized := True\<rparr>" "''AB''"]
    format_line_steps_in_order
      [of "new_PrinterState\<lparr>chars_per_line := 10, alignment := 1\<rparr>" "''abc''"]
  by (simp add: new_PrinterState_def expand_def annotate_def justify_def effective_width_def
      pad_both_def pad_both_extra_right_def replicate_numeral)

section \<open>The end of a batch\<close>

lemma scan_loop_console:
  "\<exists>e. scan_loop data i sim = Some (Inr e) \<and> console e = console sim"
proof (rule scan_loop_invariant)
  show "console sim = console sim" ..
next
  fix j s s' j'
  assume "j < length data" and "console s = console sim"
    and "process_byte data j s = Inr (s', j')"
  then show "console s' = console sim"
    using process_byte_advance [of j data s] by auto
qed

text \<open>
  C10: after every call of \<open>process_data\<close> the current line and the receipt buffer are
  empty. What the scan left pending is emitted in the receipt box of that batch: the
  buffered lines, followed by the unterminated text rendered with the printer state at
  the end of the batch. Nothing is printed when nothing is pending.
\<close>

theorem process_data_flushes_and_clears:
  "\<exists>e s'. scan_loop data 0 (sim\<lparr>console := console sim @ [Received_hex data]\<rparr>) = Some (Inr e) \<and>
     process_data data sim = Some (Inr s') \<and>
     current_line s' = [] \<and> buffer s' = [] \<and> state s' = state e \<and>
     console s' = console sim @ [Received_hex data]
       @ (if buffer e = [] \<and> current_line e = [] then []
          else receipt_box (chars_per_line (state e) + 2)
                 (buffer e @ (if current_line e = [] then []
                              else [rendered (state e) (current_line e)])))"
proof -
  obtain e where e: "scan_loop data 0 (sim\<lparr>console := console sim @ [Received_hex data]\<rparr>) = Some (Inr e)"
    and c: "console e = console sim @ [Received_hex data]"
    using scan_loop_console [of data 0 "sim\<lparr>console := console sim @ [Received_hex data]\<rparr>"]
    by auto
  have p: "process_data data sim = Some (print_buffer e)"
    using e by (rule process_data_print_buffer)
  show ?thesis
  proof (cases "buffer e = [] \<and> current_line e = []")
    case True
    then have "print_buffer e = Inr e" by (simp add: print_buffer_Inr)
    then show ?thesis using e p c True by simp
  next
    case False
    define s' where "s' = e\<lparr>console := console e
                   @ receipt_box (chars_per_line (state e) + 2)
                       (buffer e @ (if current_line e = [] then []
                                       else [rendered (state e) (current_line e)])),
                 buffer := [], current_line := []\<rparr>"
    have "print_buffer e = Inr s'"
      using False by (simp add: print_buffer_Inr s'_def receipt_box_def)
    then show ?thesis using e p c False by (auto simp: s'_def)
  qed
qed

section \<open>The printer state across batches\<close>

lemma handle_esc_sequence_state_exact:
  assumes h: "handle_esc_sequence data j s = Inr (s', j')" and esc: "data ! j = ESC"
  shows "state s' = (if is_initialize data j then new_PrinterState
                     else assign_argument data j (state s))"
proof -
  define cmd where "cmd = data ! (j + 1)"
  consider (short) "length data \<le> j + 1"
    | (init) "j + 1 < length data" "cmd = 0x40"
    | (noarg) "j + 1 < length data" "cmd \<noteq> 0x40" "\<not> j + 2 < length data"
    | (arg) "j + 2 < length data" "cmd \<noteq> 0x40"
    by linarith
  then show ?thesis
  proof cases
    case short
    then have "s' = s" using h by (simp add: handle_esc_sequence_def)
    then show ?thesis using short by (simp add: is_initialize_def assign_argument_def)
  next
    case init
    then have "s' = s\<lparr>state := new_PrinterState\<rparr>"
      using h by (simp add: handle_esc_sequence_def getb_def cmd_def)
    then show ?thesis using init esc by (simp add: is_initialize_def cmd_def)
  next
    case noarg
    then have "s' = s"
      using h by (auto simp: handle_esc_sequence_def getb_def cmd_def split: if_splits)
    then show ?thesis using noarg by (simp add: is_initialize_def assign_argument_def cmd_def)
  next
    case arg
    then have ni: "\<not> is_initialize data j" by (simp add: is_initialize_def cmd_def)
    have len: "j + 1 < length data" using arg by simp
    consider "cmd = 0x61" | "cmd = 0x45" | "cmd = 0x64" | "cmd = 0x24" | "cmd = 0x74"
      | "cmd = 0x21"
      | "cmd \<noteq> 0x61" "cmd \<noteq> 0x45" "cmd \<noteq> 0x64" "cmd \<noteq> 0x24" "cmd \<noteq> 0x74" "cmd \<noteq> 0x21"
      by blast
    then have "state s' = assign_argument data j (state s)"
    proof cases
      case 1
      then have "state s' = (state s)\<lparr>alignment := uint (data ! (j + 2)) mod 3\<rparr>"
        using h arg len
        by (auto simp: handle_esc_sequence_def getb_def flush_line_Inr cmd_def)
      then show ?thesis using 1 arg esc by (simp add: assign_argument_def cmd_def Let_def)
    next
      case 2
      then have "state s' = (state s)\<lparr>emphasized := (data ! (j + 2) \<noteq> 0)\<rparr>"
        using h arg len
        by (auto simp: handle_esc_sequence_def getb_def cmd_def)
      then show ?thesis using 2 arg esc by (simp add: assign_argument_def cmd_def Let_def)
    next
      case 3
      then have "state s' = state s"
        using h arg len
        by (auto simp: handle_esc_sequence_def getb_def flush_line_Inr cmd_def)
      then show ?thesis using 3 arg esc by (simp add: assign_argument_def cmd_def Let_def)
    next
      case 4
      then have "state s' = state s"
        using h arg len
        by (auto simp: handle_esc_sequence_def getb_def cmd_def)
      then show ?thesis using 4 arg esc by (simp add: assign_argument_def cmd_def Let_def)
    next
      case 5
      then have "state s' = (state s)\<lparr>code_page := uint (data ! (j + 2))\<rparr>"
        using h arg len
        by (auto simp: handle_esc_sequence_def getb_def cmd_def)
      then show ?thesis using 5 arg esc by (simp add: assign_argument_def cmd_def Let_def)
    next
      case 6
      then have "state s' = (state s)
          \<lparr>font_b := (data ! (j + 2) AND 1 \<noteq> 0), emphasized := (data ! (j + 2) AND 8 \<noteq> 0),
           double_height := (data ! (j + 2) AND 16 \<noteq> 0),
           double_width := (data ! (j + 2) AND 32 \<noteq> 0)\<rparr>"
        using h arg len
        by (auto simp: handle_esc_sequence_def getb_def cmd_def)
      then show ?thesis using 6 arg esc by (simp add: assign_argument_def cmd_def Let_def)
    next
      case 7
      then have "state s' = state s"
        using h arg len
        by (auto simp: handle_esc_sequence_def getb_def cmd_def)
      then show ?thesis using 7 arg esc by (simp add: assign_argument_def cmd_def Let_def)
    qed
    then show ?thesis using ni by simp
  qed
qed

lemma handle_gs_sequence_state_exact:
  assumes h: "handle_gs_sequence data j s = Inr (s', j')" and gs: "data ! j = GS"
  shows "state s' = (if is_initialize data j then new_PrinterState
                     else assign_argument data j (state s))"
proof -
  define cmd where "cmd = data ! (j + 1)"
  have ni: "\<not> is_initialize data j" using gs by (simp add: is_initialize_def)
  consider (short) "length data \<le> j + 1"
    | (cut) "j + 1 < length data" "cmd = 0x56"
    | (size) "j + 2 < length data" "cmd = 0x21"
    | (nosize) "j + 1 < length data" "\<not> j + 2 < length data" "cmd = 0x21"
    | (other) "j + 1 < length data" "cmd \<noteq> 0x56" "cmd \<noteq> 0x21"
    by linarith
  then have "state s' = assign_argument data j (state s)"
  proof cases
    case short
    then have "s' = s" using h by (simp add: handle_gs_sequence_def)
    then show ?thesis using short by (simp add: assign_argument_def)
  next
    case cut
    then have "state s' = state s"
      using h by (auto simp: handle_gs_sequence_def getb_def flush_line_Inr cmd_def)
    then show ?thesis using cut gs by (simp add: assign_argument_def cmd_def Let_def)
  next
    case size
    then have "state s' = (state s)\<lparr>font_size :=
        max (uint (drop_bit 4 (data ! (j + 2) AND 0x70)) + 1) (uint (data ! (j + 2) AND 0x07) + 1)\<rparr>"
      using h by (auto simp: handle_gs_sequence_def getb_def cmd_def Let_def)
    then show ?thesis using size gs by (simp add: assign_argument_def cmd_def Let_def)
  next
    case nosize
    then have "s' = s"
      using h by (simp add: handle_gs_sequence_def getb_def cmd_def)
    then show ?thesis using nosize by (simp add: assign_argument_def)
  next
    case other
    then have "s' = s"
      using h by (simp add: handle_gs_sequence_def getb_def cmd_def)
    then show ?thesis using other gs by (simp add: assign_argument_def cmd_def Let_def)
  qed
  then show ?thesis using ni by simp
qed

lemma process_byte_state_exact:
  assumes "j < length data" and "process_byte data j s = Inr (s', j')"
  shows "state s' = (if is_initialize data j then new_PrinterState
                     else assign_argument data j (state s))"
proof -
  consider "data ! j = ESC" | "data ! j = GS" | "data ! j = FS"
    | "data ! j \<noteq> ESC" "data ! j \<noteq> GS" "data ! j \<noteq> FS" by blast
  then show ?thesis
  proof cases
    case 1
    then have "handle_esc_sequence data j s = Inr (s', j')"
      using assms by (simp add: process_byte_def getb_def)
    from handle_esc_sequence_state_exact [OF this 1] show ?thesis .
  next
    case 2
    then have "handle_gs_sequence data j s = Inr (s', j')"
      using assms by (simp add: process_byte_def getb_def)
    from handle_gs_sequence_state_exact [OF this 2] show ?thesis .
  next
    case 3
    then have "handle_fs_sequence data j s = Inr (s', j')"
      using assms by (simp add: process_byte_def getb_def)
    then have "state s' = state s"
      by (auto simp: handle_fs_sequence_def getb_def split: if_splits)
    then show ?thesis using 3
      by (simp add: is_initialize_def assign_argument_def Let_def)
  next
    case 4
    then have "state s' = state s"
      using assms
      by (auto simp: process_byte_def getb_def flush_line_Inr split: if_splits)
    then show ?thesis using 4
      by (simp add: is_initialize_def assign_argument_def Let_def)
  qed
qed

lemma process_byte_decode_state:
  assumes "j < length data" and "process_byte data j s = Inr (s', j')"
  shows "state s' = decode_state data (state s) j"
  using process_byte_state_exact [OF assms] by (simp add: decode_state_def)

lemma decode_state_no_introducer:
  assumes "data ! j \<noteq> ESC" and "data ! j \<noteq> GS"
  shows "decode_state data st j = st"
  using assms by (simp add: decode_state_def is_initialize_def assign_argument_def Let_def)

lemma scan_run_state:
  assumes "scan_run data i sim js k e"
  shows "state e = foldl (decode_state data) (state sim) js"
  using assms
proof (induction rule: scan_run.induct)
  case (exit i sim)
  show ?case by simp
next
  case (iterate i sim sim' i' js k e)
  from process_byte_decode_state [OF iterate.hyps(1) iterate.hyps(2)] iterate.IH
  show ?case by simp
qed

lemma scan_loop_state_no_introducer:
  assumes "list_all (\<lambda>b. b \<noteq> ESC \<and> b \<noteq> GS) data"
  shows "\<exists>e. scan_loop data i sim = Some (Inr e) \<and> state e = state sim"
proof (rule scan_loop_invariant)
  show "state sim = state sim" ..
next
  fix j s s' j'
  assume j: "j < length data" and inv: "state s = state sim"
    and step: "process_byte data j s = Inr (s', j')"
  from assms j have "data ! j \<noteq> ESC" "data ! j \<noteq> GS"
    by (simp_all add: list_all_length)
  then have "decode_state data (state s) j = state s" by (rule decode_state_no_introducer)
  with process_byte_decode_state [OF j step] inv show "state s' = state sim" by simp
qed

text \<open>
  C8: the printer state is never reset implicitly between batches. For two byte sequences
  processed in succession by the same simulator both calls return, and printing the hex
  dump and the receipt box leaves the printer state alone: the scan of the second batch
  starts from the state in which the scan of the first one ended, and the state after the
  second batch is that state taken through the commands the second scan decodes, one
  after the other. A batch without a command introducer leaves the state as it found it.
  In every step of a scan the new state is the default record exactly when the step
  decodes the initialize command; in every other step it is the old state with the
  fields assigned that the decoded command names, from its argument byte, and nothing
  else.
\<close>

theorem printer_state_persists_between_batches:
  "\<exists>e1 s1 js k e2 s2.
     scan_loop d1 0 (sim\<lparr>console := console sim @ [Received_hex d1]\<rparr>) = Some (Inr e1) \<and>
     process_data d1 sim = Some (Inr s1) \<and>
     scan_run d2 0 (s1\<lparr>console := console s1 @ [Received_hex d2]\<rparr>) js k e2 \<and>
     scan_loop d2 0 (s1\<lparr>console := console s1 @ [Received_hex d2]\<rparr>) = Some (Inr e2) \<and>
     process_data d2 s1 = Some (Inr s2) \<and>
     state s1 = state e1 \<and>
     state (s1\<lparr>console := console s1 @ [Received_hex d2]\<rparr>) = state e1 \<and>
     state s2 = state e2 \<and>
     state s2 = foldl (decode_state d2) (state e1) js \<and>
     (list_all (\<lambda>b. b \<noteq> ESC \<and> b \<noteq> GS) d2 \<longrightarrow> state s2 = state s1) \<and>
     (\<forall>j s s' j'. j < length d2 \<and> process_byte d2 j s = Inr (s', j') \<longrightarrow>
        state s' = (if is_initialize d2 j then new_PrinterState
                    else assign_argument d2 j (state s)))"
proof -
  obtain e1 where e1: "scan_loop d1 0 (sim\<lparr>console := console sim @ [Received_hex d1]\<rparr>) = Some (Inr e1)"
    using scan_loop_returns by blast
  define s1 where "s1 = (if buffer e1 = [] \<and> current_line e1 = [] then e1
          else e1\<lparr>console := console e1
                   @ [Receipt_header, Box_top (chars_per_line (state e1) + 2)]
                   @ map (\<lambda>line. if strip line \<noteq> [] then Box_row line
                                  else Box_blank (chars_per_line (state e1) + 2))
                       (buffer e1 @ (if current_line e1 = [] then []
                                       else [rendered (state e1) (current_line e1)]))
                   @ [Box_bottom (chars_per_line (state e1) + 2)],
                 buffer := [], current_line := []\<rparr>)"
  have pb1: "print_buffer e1 = Inr s1" by (simp add: print_buffer_Inr s1_def)
  have p1: "process_data d1 sim = Some (Inr s1)"
    using process_data_print_buffer [OF e1] pb1 by simp
  have st1: "state s1 = state e1" by (simp add: s1_def)
  from scan_loop_run [of d2 0 "s1\<lparr>console := console s1 @ [Received_hex d2]\<rparr>"]
  obtain js k e2 where
    run: "scan_run d2 0 (s1\<lparr>console := console s1 @ [Received_hex d2]\<rparr>) js k e2" and
    e2: "scan_loop d2 0 (s1\<lparr>console := console s1 @ [Received_hex d2]\<rparr>) = Some (Inr e2)"
    by blast
  obtain s2 where pb2: "print_buffer e2 = Inr s2" and st2: "state s2 = state e2"
    by (simp add: print_buffer_Inr)
  have p2: "process_data d2 s1 = Some (Inr s2)"
    using process_data_print_buffer [OF e2] pb2 by simp
  have start: "state (s1\<lparr>console := console s1 @ [Received_hex d2]\<rparr>) = state e1"
    using st1 by simp
  have fold: "state s2 = foldl (decode_state d2) (state e1) js"
    using scan_run_state [OF run] st2 start by simp
  have keep: "list_all (\<lambda>b. b \<noteq> ESC \<and> b \<noteq> GS) d2 \<longrightarrow> state s2 = state s1"
  proof
    assume "list_all (\<lambda>b. b \<noteq> ESC \<and> b \<noteq> GS) d2"
    from scan_loop_state_no_introducer [OF this, of 0 "s1\<lparr>console := console s1 @ [Received_hex d2]\<rparr>"] e2
    have "state e2 = state s1" by simp
    with st2 show "state s2 = state s1" by simp
  qed
  have step: "\<forall>j s s' j'. j < length d2 \<and> process_byte d2 j s = Inr (s', j') \<longrightarrow>
        state s' = (if is_initialize d2 j then new_PrinterState
                    else assign_argument d2 j (state s))"
    using process_byte_state_exact by blast
  from e1 p1 run e2 p2 st1 start st2 fold keep step show ?thesis by blast
qed

lemma first_batch_sets_centre:
  "process_data [ESC, 0x61, 1] (new_ESCPOSSimulator 9100)
     = Some (Inr ((new_ESCPOSSimulator 9100)
          \<lparr>state := new_PrinterState\<lparr>alignment := 1\<rparr>,
            console := [Received_hex [ESC, 0x61, 1]]\<rparr>))"
  by (simp add: process_data_def scan_loop.simps process_byte_def handle_esc_sequence_def
      getb_def flush_line_Inr print_buffer_Inr new_ESCPOSSimulator_def)

theorem printer_state_persists_between_batches_witness:
  "(\<exists>s1 s2. process_data [ESC, 0x61, 1] (new_ESCPOSSimulator 9100) = Some (Inr s1) \<and>
      process_data [0x68, 0x69, LF] s1 = Some (Inr s2) \<and>
      list_all (\<lambda>b. b \<noteq> ESC \<and> b \<noteq> GS) [0x68, 0x69, LF :: byte] \<and>
      state s2 = state s1 \<and> alignment (state s2) = 1 \<and> state s2 \<noteq> new_PrinterState) \<and>
   (0 :: nat) < length [ESC, 0x74, 5 :: byte] \<and>
   process_byte [ESC, 0x74, 5] 0
       ((new_ESCPOSSimulator 9100)\<lparr>state := new_PrinterState\<lparr>alignment := 1\<rparr>\<rparr>)
     = Inr ((new_ESCPOSSimulator 9100)
              \<lparr>state := new_PrinterState\<lparr>alignment := 1, code_page := 5\<rparr>\<rparr>, 3) \<and>
   \<not> is_initialize [ESC, 0x74, 5] 0 \<and>
   assign_argument [ESC, 0x74, 5] 0 (new_PrinterState\<lparr>alignment := 1\<rparr>)
     = new_PrinterState\<lparr>alignment := 1, code_page := 5\<rparr> \<and>
   new_PrinterState\<lparr>alignment := 1, code_page := 5\<rparr> \<noteq> new_PrinterState"
proof -
  from printer_state_persists_between_batches
    [of "[ESC, 0x61, 1]" "new_ESCPOSSimulator 9100" "[0x68, 0x69, LF]"]
  obtain s1 s2 where
    p1: "process_data [ESC, 0x61, 1] (new_ESCPOSSimulator 9100) = Some (Inr s1)" and
    p2: "process_data [0x68, 0x69, LF] s1 = Some (Inr s2)" and
    keep: "list_all (\<lambda>b. b \<noteq> ESC \<and> b \<noteq> GS) [0x68, 0x69, LF :: byte] \<longrightarrow> state s2 = state s1"
    by blast
  have l: "list_all (\<lambda>b. b \<noteq> ESC \<and> b \<noteq> GS) [0x68, 0x69, LF :: byte]" by simp
  have "s1 = (new_ESCPOSSimulator 9100)
          \<lparr>state := new_PrinterState\<lparr>alignment := 1\<rparr>,
            console := [Received_hex [ESC, 0x61, 1]]\<rparr>"
    using p1 unfolding first_batch_sets_centre by simp
  then have "state s1 = new_PrinterState\<lparr>alignment := 1\<rparr>"
    by simp
  moreover have "state s2 = state s1" using keep l by blast
  ultimately have "alignment (state s2) = 1" "state s2 \<noteq> new_PrinterState"
    by (simp_all add: new_PrinterState_def)
  with p1 p2 l \<open>state s2 = state s1\<close>
  have batches: "\<exists>s1 s2. process_data [ESC, 0x61, 1] (new_ESCPOSSimulator 9100) = Some (Inr s1) \<and>
      process_data [0x68, 0x69, LF] s1 = Some (Inr s2) \<and>
      list_all (\<lambda>b. b \<noteq> ESC \<and> b \<noteq> GS) [0x68, 0x69, LF :: byte] \<and>
      state s2 = state s1 \<and> alignment (state s2) = 1 \<and> state s2 \<noteq> new_PrinterState"
    by blast
  let ?S = "(new_ESCPOSSimulator 9100)\<lparr>state := new_PrinterState\<lparr>alignment := 1\<rparr>\<rparr>"
  have pb: "process_byte [ESC, 0x74, 5] 0 ?S
     = Inr ((new_ESCPOSSimulator 9100)
              \<lparr>state := new_PrinterState\<lparr>alignment := 1, code_page := 5\<rparr>\<rparr>, 3)"
    by (simp add: process_byte_def handle_esc_sequence_def getb_def new_ESCPOSSimulator_def)
  from printer_state_persists_between_batches
    [of "[ESC, 0x61, 1]" "new_ESCPOSSimulator 9100" "[ESC, 0x74, 5]"]
  have "\<forall>j s s' j'. j < length [ESC, 0x74, 5 :: byte] \<and>
          process_byte [ESC, 0x74, 5] j s = Inr (s', j') \<longrightarrow>
        state s' = (if is_initialize [ESC, 0x74, 5] j then new_PrinterState
                    else assign_argument [ESC, 0x74, 5] j (state s))"
    by blast
  from this [rule_format, of 0 ?S _ 3] pb
  have "new_PrinterState\<lparr>alignment := 1, code_page := 5\<rparr>
      = (if is_initialize [ESC, 0x74, 5] 0 then new_PrinterState
         else assign_argument [ESC, 0x74, 5] 0 (new_PrinterState\<lparr>alignment := 1\<rparr>))"
    by (simp add: new_ESCPOSSimulator_def)
  moreover have ni: "\<not> is_initialize [ESC, 0x74, 5] 0" by (simp add: is_initialize_def)
  ultimately have aa: "assign_argument [ESC, 0x74, 5] 0 (new_PrinterState\<lparr>alignment := 1\<rparr>)
     = new_PrinterState\<lparr>alignment := 1, code_page := 5\<rparr>" by simp
  have ne: "new_PrinterState\<lparr>alignment := 1, code_page := 5\<rparr> \<noteq> new_PrinterState"
    by (simp add: new_PrinterState_def)
  from batches pb ni aa ne show ?thesis by simp
qed

end
